theory Spec2Isabelle
  imports Main "HOL-Library.Multiset"
begin

section \<open>Python strings and the built-ins that reflection.py calls\<close>

text \<open>
  A Python \<open>str\<close> is modelled by the \<open>string\<close> of its UTF-8 bytes; the operations
  below are those of CPython 3.11. A percent escape may decode to any byte, which is why
  \<open>unquote\<close> includes the UTF-8 decoder. Exceptions are values of type \<open>error\<close>; a
  function that can raise returns \<open>error + 'a\<close>, or the effects it performed together
  with the exception that ended it, if any.
\<close>

datatype error =
    InvalidIPv6URL         \<comment> \<open>ValueError("Invalid IPv6 URL"), urlsplit\<close>
  | InvalidIPvFuture       \<comment> \<open>ValueError("IPvFuture address is invalid")\<close>
  | IPv4InBrackets         \<comment> \<open>ValueError("An IPv4 address cannot be in brackets")\<close>
  | NotAnIPAddress         \<comment> \<open>ValueError("... does not appear to be an IPv4 or IPv6 address")\<close>
  | InvalidNetloc          \<comment> \<open>ValueError("netloc ... contains invalid characters under NFKC normalization")\<close>
  | IndexError
  | ZeroDivisionError
  | OSError                \<comment> \<open>raised by \<open>open\<close>, \<open>write\<close>, \<open>close\<close> or \<open>print\<close>\<close>
  | UnicodeEncodeError     \<comment> \<open>raised by \<open>write\<close> or \<open>print\<close> on a text the stream cannot encode\<close>

text \<open>\<open>s.split(c)\<close> for a one-character separator: never the empty list.\<close>

fun split_on :: "char \<Rightarrow> string \<Rightarrow> string list" where
  "split_on c [] = [[]]"
| "split_on c (x # xs) =
     (if x = c then [] # split_on c xs
      else (case split_on c xs of
              [] \<Rightarrow> [[x]]
            | w # ws \<Rightarrow> (x # w) # ws))"

text \<open>\<open>s.partition(c)\<close>: the text before the first \<open>c\<close>, whether there is one, the text after it.\<close>

definition partition_on :: "char \<Rightarrow> string \<Rightarrow> string \<times> bool \<times> string" where
  "partition_on c s = (takeWhile (\<lambda>x. x \<noteq> c) s, c \<in> set s, drop 1 (dropWhile (\<lambda>x. x \<noteq> c) s))"

text \<open>\<open>sep.join(xs)\<close>.\<close>

fun join :: "string \<Rightarrow> string list \<Rightarrow> string" where
  "join sep [] = []"
| "join sep [x] = x"
| "join sep (x # y # ys) = x @ sep @ join sep (y # ys)"

subsection \<open>urllib.parse.unquote\<close>

definition hexdig :: string where
  "hexdig = ''0123456789ABCDEFabcdef''"

definition hexval :: "char \<Rightarrow> nat option" where
  "hexval c = map_of (zip hexdig ([0..<16] @ [10..<16])) c"

text \<open>\<open>_hextobyte[item[:2]]\<close>: a KeyError (here None) unless the key is two hex digits.\<close>

definition hextobyte :: "string \<Rightarrow> char option" where
  "hextobyte k =
     (case k of
        [a, b] \<Rightarrow>
          (case (hexval a, hexval b) of
             (Some h, Some l) \<Rightarrow> Some (char_of (16 * h + l))
           | _ \<Rightarrow> None)
      | _ \<Rightarrow> None)"

fun unquote_items :: "string list \<Rightarrow> string" where
  "unquote_items [] = []"
| "unquote_items (item # items) =
     (case hextobyte (take 2 item) of
        Some b \<Rightarrow> b # drop 2 item
      | None \<Rightarrow> CHR ''%'' # item) @ unquote_items items"

definition unquote_to_bytes :: "string \<Rightarrow> string" where
  "unquote_to_bytes s =
     (case split_on CHR ''%'' s of
        [] \<Rightarrow> []
      | b # bits \<Rightarrow> b @ unquote_items bits)"

text \<open>
  \<open>bytes.decode('utf-8', 'replace')\<close>: a well-formed sequence is kept, and each maximal
  ill-formed part becomes U+FFFD (the bytes EF BF BD).
\<close>

definition byte :: "char \<Rightarrow> nat" where
  "byte c = of_char c"

definition is_continuation :: "char \<Rightarrow> bool" where
  "is_continuation c = (128 \<le> byte c \<and> byte c < 192)"

definition replacement :: string where
  "replacement = [char_of (239::nat), char_of (191::nat), char_of (189::nat)]"

text \<open>The second byte of a 3- or 4-byte sequence, with the ranges the lead byte narrows.\<close>

definition bad_second :: "char \<Rightarrow> char \<Rightarrow> bool" where
  "bad_second c c2 =
     (\<not> is_continuation c2
      \<or> (byte c = 224 \<and> byte c2 < 160) \<or> (byte c = 237 \<and> 160 \<le> byte c2)
      \<or> (byte c = 240 \<and> byte c2 < 144) \<or> (byte c = 244 \<and> 144 \<le> byte c2))"

fun utf8_replace :: "string \<Rightarrow> string" where
  "utf8_replace [] = []"
| "utf8_replace (c # s) =
     (if byte c < 128 then c # utf8_replace s
      else if byte c < 194 \<or> 245 \<le> byte c then replacement @ utf8_replace s
      else if byte c < 224 then
        (case s of
           [] \<Rightarrow> replacement
         | c2 # s2 \<Rightarrow>
             if is_continuation c2 then c # c2 # utf8_replace s2
             else replacement @ utf8_replace s)
      else if byte c < 240 then
        (case s of
           [] \<Rightarrow> replacement
         | c2 # s2 \<Rightarrow>
             if bad_second c c2 then replacement @ utf8_replace s
             else (case s2 of
                     [] \<Rightarrow> replacement
                   | c3 # s3 \<Rightarrow>
                       if is_continuation c3 then c # c2 # c3 # utf8_replace s3
                       else replacement @ utf8_replace s2))
      else
        (case s of
           [] \<Rightarrow> replacement
         | c2 # s2 \<Rightarrow>
             if bad_second c c2 then replacement @ utf8_replace s
             else (case s2 of
                     [] \<Rightarrow> replacement
                   | c3 # s3 \<Rightarrow>
                       if \<not> is_continuation c3 then replacement @ utf8_replace s2
                       else (case s3 of
                               [] \<Rightarrow> replacement
                             | c4 # s4 \<Rightarrow>
                                 if is_continuation c4 then c # c2 # c3 # c4 # utf8_replace s4
                                 else replacement @ utf8_replace s3))))"

definition unquote :: "string \<Rightarrow> string" where
  "unquote s = (if CHR ''%'' \<notin> set s then s else utf8_replace (unquote_to_bytes s))"

definition unquote_plus :: "string \<Rightarrow> string" where
  "unquote_plus s = unquote (map (\<lambda>c. if c = CHR ''+'' then CHR '' '' else c) s)"

subsection \<open>urllib.parse.parse_qs\<close>

text \<open>
  \<open>parse_qsl(qs)\<close> with its defaults (blank values are dropped, no strict parsing,
  separator \<open>&\<close>): the decoded (name, value) pairs in the order of the query string.
\<close>

definition parse_qsl :: "string \<Rightarrow> (string \<times> string) list" where
  "parse_qsl qs =
     (if qs = [] then []
      else concat (map (\<lambda>name_value.
             if name_value \<noteq> [] then
               (case partition_on CHR ''='' name_value of
                  (name, has_eq, val) \<Rightarrow>
                    if val \<noteq> [] then [(unquote_plus name, unquote_plus val)] else [])
             else [])
           (split_on CHR ''&'' qs)))"

text \<open>
  A Python \<open>dict\<close> keeps its keys in insertion order, so it is an association list with
  distinct keys. \<open>d[k] = v\<close>: an existing key keeps its place, a new one goes to the end.
\<close>

fun dict_set :: "'k \<Rightarrow> 'v \<Rightarrow> ('k \<times> 'v) list \<Rightarrow> ('k \<times> 'v) list" where
  "dict_set k v [] = [(k, v)]"
| "dict_set k v ((k', v') # d) =
     (if k' = k then (k, v) # d else (k', v') # dict_set k v d)"

text \<open>The body of the loop of \<open>parse_qs\<close>: append to the list of a known name, or start one.\<close>

fun dict_append :: "string \<Rightarrow> string \<Rightarrow> (string \<times> string list) list \<Rightarrow> (string \<times> string list) list" where
  "dict_append name val [] = [(name, [val])]"
| "dict_append name val ((k', vs) # d) =
     (if k' = name then (k', vs @ [val]) # d else (k', vs) # dict_append name val d)"

definition parse_qs :: "string \<Rightarrow> (string \<times> string list) list" where
  "parse_qs qs =
     foldl (\<lambda>parsed_result (name, val). dict_append name val parsed_result) [] (parse_qsl qs)"

subsection \<open>ipaddress.ip_address, as far as urlsplit needs it: does the text parse\<close>

definition digits :: string where
  "digits = ''0123456789''"

definition decimal :: "string \<Rightarrow> nat" where
  "decimal s = foldl (\<lambda>n c. 10 * n + (case hexval c of Some d \<Rightarrow> d | None \<Rightarrow> 0)) 0 s"

text \<open>\<open>_parse_octet\<close> returns (True) or raises ValueError (False).\<close>

definition parse_octet :: "string \<Rightarrow> bool" where
  "parse_octet octet_str =
     (octet_str \<noteq> []
      \<and> list_all (\<lambda>c. c \<in> set digits) octet_str
      \<and> \<not> 3 < length octet_str
      \<and> \<not> (octet_str \<noteq> ''0'' \<and> hd octet_str = CHR ''0'')
      \<and> \<not> 255 < decimal octet_str)"

definition IPv4Address :: "string \<Rightarrow> bool" where
  "IPv4Address addr_str =
     (CHR ''/'' \<notin> set addr_str
      \<and> addr_str \<noteq> []
      \<and> length (split_on CHR ''.'' addr_str) = 4
      \<and> list_all parse_octet (split_on CHR ''.'' addr_str))"

definition parse_hextet :: "string \<Rightarrow> bool" where
  "parse_hextet hextet_str =
     (list_all (\<lambda>c. c \<in> set hexdig) hextet_str
      \<and> \<not> 4 < length hextet_str
      \<and> hextet_str \<noteq> [])"

text \<open>
  \<open>_BaseV6._ip_int_from_string\<close>. An IPv4 suffix is replaced by its two hextets; only
  their being well-formed matters here, so the model puts \<open>0\<close> for each.
\<close>

definition ip6_int_from_string :: "string \<Rightarrow> bool" where
  "ip6_int_from_string ip_str =
     (if ip_str = [] then False
      else
        let parts0 = split_on CHR '':'' ip_str in
        if length parts0 < 3 then False
        else if CHR ''.'' \<in> set (last parts0) \<and> \<not> IPv4Address (last parts0) then False
        else
          let parts = (if CHR ''.'' \<in> set (last parts0)
                       then butlast parts0 @ [''0'', ''0''] else parts0);
              skips = filter (\<lambda>i. parts ! i = []) [1..<length parts - 1]
          in
          if 9 < length parts then False
          else if 1 < length skips then False
          else
            (case skips of
               skip_index # _ \<Rightarrow>
                 let hi0 = skip_index;
                     lo0 = length parts - skip_index - 1;
                     parts_hi = (if hd parts = [] then hi0 - 1 else hi0);
                     parts_lo = (if last parts = [] then lo0 - 1 else lo0)
                 in
                 if hd parts = [] \<and> parts_hi \<noteq> 0 then False
                 else if last parts = [] \<and> parts_lo \<noteq> 0 then False
                 else if 8 < parts_hi + parts_lo + 1 then False
                 else list_all parse_hextet (take parts_hi parts)
                      \<and> list_all parse_hextet (drop (length parts - parts_lo) parts)
             | [] \<Rightarrow>
                 if length parts \<noteq> 8 then False
                 else if hd parts = [] then False
                 else if last parts = [] then False
                 else list_all parse_hextet parts))"

definition IPv6Address :: "string \<Rightarrow> bool" where
  "IPv6Address addr_str =
     (if CHR ''/'' \<in> set addr_str then False
      else
        (case partition_on CHR ''%'' addr_str of
           (addr, sep, scope_id) \<Rightarrow>
             if sep \<and> (scope_id = [] \<or> CHR ''%'' \<in> set scope_id) then False
             else ip6_int_from_string addr))"

text \<open>
  \<open>_check_bracketed_host\<close>. The regular expression is
  \<^verbatim>\<open>\Av[a-fA-F0-9]+\..+\Z\<close>: a \<open>v\<close>, hex digits, a dot, and at least one more character,
  none of them a newline.
\<close>

definition check_bracketed_host :: "string \<Rightarrow> error + unit" where
  "check_bracketed_host hostname =
     (if take 1 hostname = ''v'' then
        (let hex = takeWhile (\<lambda>c. c \<in> set hexdig) (drop 1 hostname);
             rest = dropWhile (\<lambda>c. c \<in> set hexdig) (drop 1 hostname)
         in if hex \<noteq> [] \<and> take 1 rest = ''.'' \<and> drop 1 rest \<noteq> []
               \<and> char_of (10::nat) \<notin> set (drop 1 rest)
            then Inr () else Inl InvalidIPvFuture)
      else if IPv4Address hostname then Inl IPv4InBrackets
      else if IPv6Address hostname then Inr ()
      else Inl NotAnIPAddress)"

subsection \<open>urllib.parse.urlparse and urlunparse\<close>

definition uses_netloc :: "string list" where
  "uses_netloc = ['''', ''ftp'', ''http'', ''gopher'', ''nntp'', ''telnet'',
                  ''imap'', ''wais'', ''file'', ''mms'', ''https'', ''shttp'',
                  ''snews'', ''prospero'', ''rtsp'', ''rtsps'', ''rtspu'', ''rsync'',
                  ''svn'', ''svn+ssh'', ''sftp'', ''nfs'', ''git'', ''git+ssh'',
                  ''ws'', ''wss'']"

definition uses_params :: "string list" where
  "uses_params = ['''', ''ftp'', ''hdl'', ''prospero'', ''http'', ''imap'',
                  ''https'', ''shttp'', ''rtsp'', ''rtsps'', ''rtspu'', ''sip'',
                  ''sips'', ''mms'', ''sftp'', ''tel'']"

definition lowercase :: string where
  "lowercase = ''abcdefghijklmnopqrstuvwxyz''"

definition uppercase :: string where
  "uppercase = ''ABCDEFGHIJKLMNOPQRSTUVWXYZ''"

definition scheme_chars :: string where
  "scheme_chars = lowercase @ uppercase @ digits @ ''+-.''"

text \<open>\<open>s.lower()\<close> of an ASCII string.\<close>

definition lower :: "string \<Rightarrow> string" where
  "lower s = map (\<lambda>c. case map_of (zip uppercase lowercase) c of Some l \<Rightarrow> l | None \<Rightarrow> c) s"

text \<open>
  \<open>url.lstrip(_WHATWG_C0_CONTROL_OR_SPACE)\<close> and the removal of tab, carriage return
  and newline.
\<close>

definition lstrip_c0 :: "string \<Rightarrow> string" where
  "lstrip_c0 url = dropWhile (\<lambda>c. byte c \<le> 32) url"

definition remove_unsafe :: "string \<Rightarrow> string" where
  "remove_unsafe url = filter (\<lambda>c. byte c \<noteq> 9 \<and> byte c \<noteq> 13 \<and> byte c \<noteq> 10) url"

record SplitResult =
  scheme :: string
  netloc :: string
  path :: string
  query :: string
  fragment :: string

record ParseResult = SplitResult +
  params :: string

text \<open>\<open>_splitnetloc(url, 2)\<close>: the text after \<open>//\<close> up to the first of \<open>/ ? #\<close>, and the rest.\<close>

definition splitnetloc :: "string \<Rightarrow> string \<times> string" where
  "splitnetloc url =
     (takeWhile (\<lambda>c. c \<notin> set ''/?#'') (drop 2 url),
      dropWhile (\<lambda>c. c \<notin> set ''/?#'') (drop 2 url))"

text \<open>The scheme test of \<open>urlsplit\<close>: (scheme, rest of the url).\<close>

definition split_scheme :: "string \<Rightarrow> string \<times> string" where
  "split_scheme url =
     (let head = takeWhile (\<lambda>c. c \<noteq> CHR '':'') url in
      if CHR '':'' \<in> set url \<and> head \<noteq> []
         \<and> hd url \<in> set (lowercase @ uppercase)
         \<and> list_all (\<lambda>c. c \<in> set scheme_chars) head
      then (lower head, drop (length head + 1) url)
      else ([], url))"

text \<open>The bracket checks of \<open>urlsplit\<close> on the netloc.\<close>

definition check_brackets :: "string \<Rightarrow> error + unit" where
  "check_brackets netloc0 =
     (if (CHR ''['' \<in> set netloc0 \<and> CHR '']'' \<notin> set netloc0)
         \<or> (CHR '']'' \<in> set netloc0 \<and> CHR ''['' \<notin> set netloc0)
      then Inl InvalidIPv6URL
      else if CHR ''['' \<in> set netloc0 \<and> CHR '']'' \<in> set netloc0 then
        check_bracketed_host
          (fst (partition_on CHR '']'' (snd (snd (partition_on CHR ''['' netloc0)))))
      else Inr ())"

text \<open>
  \<open>_checknetloc\<close> raises when the NFKC form of the netloc, taken without its
  \<open>@ : # ?\<close>, has one of \<open>/ ? # @ :\<close>. In Unicode 14.0, the version of CPython 3.11,
  that is the case exactly when the netloc has one of the 19 characters whose compatibility
  decomposition holds such a delimiter: U+2047 to U+2049, U+2100, U+2101, U+2105, U+2106,
  U+2A74, U+FE13, U+FE16, U+FE55, U+FE56, U+FE5F, U+FE6B, U+FF03, U+FF0F, U+FF1A, U+FF1F
  and U+FF20, here by their UTF-8 bytes.
\<close>

definition nfkc_delimiters :: "string list" where
  "nfkc_delimiters = map (map char_of)
     [[226, 129, 135], [226, 129, 136], [226, 129, 137], [226, 132, 128], [226, 132, 129],
      [226, 132, 133], [226, 132, 134], [226, 169, 180], [239, 184, 147], [239, 184, 150],
      [239, 185, 149], [239, 185, 150], [239, 185, 159], [239, 185, 171], [239, 188, 131],
      [239, 188, 143], [239, 188, 154], [239, 188, 159], [239, 188, 160 :: nat]]"

text \<open>\<open>sub in s\<close>.\<close>

fun contains :: "string \<Rightarrow> string \<Rightarrow> bool" where
  "contains sub [] = (sub = [])"
| "contains sub (x # xs) = (take (length sub) (x # xs) = sub \<or> contains sub xs)"

definition checknetloc :: "string \<Rightarrow> error + unit" where
  "checknetloc netloc0 =
     (if list_ex (\<lambda>c. contains c netloc0) nfkc_delimiters then Inl InvalidNetloc else Inr ())"

definition urlsplit :: "string \<Rightarrow> error + SplitResult" where
  "urlsplit url0 =
     (let (scheme', url1) = split_scheme (remove_unsafe (lstrip_c0 url0));
          (netloc', url2) = (if take 2 url1 = ''//'' then splitnetloc url1 else ([], url1));
          (url3, fragment') = (if CHR ''#'' \<in> set url2
                               then (case partition_on CHR ''#'' url2 of (a, _, b) \<Rightarrow> (a, b))
                               else (url2, []));
          (url4, query') = (if CHR ''?'' \<in> set url3
                            then (case partition_on CHR ''?'' url3 of (a, _, b) \<Rightarrow> (a, b))
                            else (url3, []))
      in case (if take 2 url1 = ''//'' then check_brackets netloc' else Inr ()) of
           Inl e \<Rightarrow> Inl e
         | Inr _ \<Rightarrow>
             (case checknetloc netloc' of
                Inl e \<Rightarrow> Inl e
              | Inr _ \<Rightarrow>
                  Inr \<lparr>scheme = scheme', netloc = netloc', path = url4,
                       query = query', fragment = fragment'\<rparr>))"

text \<open>\<open>_splitparams\<close>: the parameters of the last path segment.\<close>

definition splitparams :: "string \<Rightarrow> string \<times> string" where
  "splitparams url =
     (if CHR ''/'' \<in> set url then
        (let last_slash = length url - 1 - length (takeWhile (\<lambda>c. c \<noteq> CHR ''/'') (rev url));
             segment = drop last_slash url
         in if CHR '';'' \<notin> set segment then (url, [])
            else (let i = last_slash + length (takeWhile (\<lambda>c. c \<noteq> CHR '';'') segment)
                  in (take i url, drop (i + 1) url)))
      else if CHR '';'' \<notin> set url then (butlast url, url)
      else
        (let i = length (takeWhile (\<lambda>c. c \<noteq> CHR '';'') url)
         in (take i url, drop (i + 1) url)))"

definition urlparse :: "string \<Rightarrow> error + ParseResult" where
  "urlparse url =
     (case urlsplit url of
        Inl e \<Rightarrow> Inl e
      | Inr r \<Rightarrow>
          (let (url', params') =
                 (if scheme r \<in> set uses_params \<and> CHR '';'' \<in> set (path r)
                  then splitparams (path r) else (path r, []))
           in Inr \<lparr>scheme = scheme r, netloc = netloc r, path = url',
                   query = query r, fragment = fragment r, params = params'\<rparr>))"

definition urlunsplit :: "SplitResult \<Rightarrow> string" where
  "urlunsplit r =
     (let url1 = (if netloc r \<noteq> [] \<or> (scheme r \<noteq> [] \<and> scheme r \<in> set uses_netloc)
                     \<or> take 2 (path r) = ''//''
                  then ''//'' @ netloc r
                       @ (if path r \<noteq> [] \<and> take 1 (path r) \<noteq> ''/'' then ''/'' @ path r else path r)
                  else path r);
          url2 = (if scheme r \<noteq> [] then scheme r @ '':'' @ url1 else url1);
          url3 = (if query r \<noteq> [] then url2 @ ''?'' @ query r else url2)
      in if fragment r \<noteq> [] then url3 @ ''#'' @ fragment r else url3)"

definition urlunparse :: "ParseResult \<Rightarrow> string" where
  "urlunparse p =
     urlunsplit \<lparr>scheme = scheme p, netloc = netloc p,
                 path = (if params p \<noteq> [] then path p @ '';'' @ params p else path p),
                 query = query p, fragment = fragment p\<rparr>"

section \<open>reflection.py\<close>

subsection \<open>Effects\<close>

text \<open>
  The functions of the script act on the outside world only: they append to the output
  file, print, and update the two global counters. Each function is modelled by the list
  of effects it performs, in order, together with the exception that ended it, if any;
  \<open>run\<close> performs a list of effects on a state. The coloured console messages are kept
  by their kind and content.
\<close>

datatype console_line =
    SAVED string          \<comment> \<open>\<open>[SAVED] {payload_url}\<close>\<close>
  | INFO string           \<comment> \<open>\<open>[INFO] Processed URL: {url}\<close>\<close>
  | ERROR string error    \<comment> \<open>\<open>[ERROR] Failed to process URL {url}: {e}\<close>\<close>
  | COMPLETE int int      \<comment> \<open>\<open>Processing complete! Total: .., Processed: ..\<close>\<close>

datatype event =
    Write string string   \<comment> \<open>\<open>with open(path, 'a') as f: f.write(text)\<close>\<close>
  | Print console_line
  | Count                 \<comment> \<open>\<open>processed_urls += 1\<close>\<close>
  | SetTotal int          \<comment> \<open>\<open>total_urls = len(urls)\<close>\<close>
  | Summary               \<comment> \<open>the closing print, which reads both counters\<close>

text \<open>
  Opening, writing and closing the file and printing can raise. Whether they do is up to
  the environment of the running thread: \<open>io h ev = Some e\<close> says that, after the effects
  \<open>h\<close> of the thread, the operation whose effect would be \<open>ev\<close> raises \<open>e\<close> instead.
  An operation that raises is taken to leave no effect. \<open>perform\<close> runs operations in
  order, up to the first that raises.
\<close>

type_synonym io = "event list \<Rightarrow> event \<Rightarrow> error option"

definition after :: "io \<Rightarrow> event list \<Rightarrow> io" where
  "after io evs = (\<lambda>h. io (evs @ h))"

fun perform :: "event list \<Rightarrow> io \<Rightarrow> event list \<times> error option" where
  "perform [] io = ([], None)"
| "perform (ev # evs) io =
     (case io [] ev of
        Some e \<Rightarrow> ([], Some e)
      | None \<Rightarrow> (case perform evs (after io [ev]) of (evs', r) \<Rightarrow> (ev # evs', r)))"




text \<open>The texts that a list of effects appends to the file \<open>p\<close>.\<close>

fun written :: "string \<Rightarrow> event list \<Rightarrow> string list" where
  "written p [] = []"
| "written p (Write p' text # evs) = (if p' = p then text # written p evs else written p evs)"
| "written p (_ # evs) = written p evs"

subsection \<open>save_reflected_url\<close>

datatype pyval = Str string | Lst "string list"

type_synonym pydict = "(string \<times> pyval) list"

definition payload :: string where
  "payload = ''{payload}''"

definition newline :: string where
  "newline = [CHR 0x0A]"

text \<open>One \<open>key=value\<close> of the rebuilt query string; a list value is joined with commas.\<close>

fun format_param :: "string \<times> pyval \<Rightarrow> string" where
  "format_param (k, Lst v) = k @ ''='' @ join '','' v"
| "format_param (k, Str v) = k @ ''='' @ v"

text \<open>
  The \<open>with\<close> block (open for appending, write, close) is one operation on the file, the
  \<open>print\<close> that follows it one on the console.
\<close>

definition save_reflected_url ::
    "string \<Rightarrow> string \<Rightarrow> pydict \<Rightarrow> string \<Rightarrow> io \<Rightarrow> event list \<times> error option" where
  "save_reflected_url original_url param_name modified_params output_file io =
     (let temp_params = dict_set param_name (Str payload) modified_params;
          query' = join ''&'' (map format_param temp_params)
      in case urlparse original_url of
           Inl e \<Rightarrow> ([], Some e)
         | Inr parsed \<Rightarrow>
             (let payload_url = urlunparse (parsed\<lparr>query := query'\<rparr>)
              in perform [Write output_file (payload_url @ newline),
                          Print (SAVED payload_url)] io))"

subsection \<open>check_reflection\<close>

text \<open>
  The loop "Ensure empty parameters are handled": a segment with no \<open>=\<close>, or with nothing
  between its first \<open>=\<close> and the next one, sets its key to the empty string.
\<close>

fun rescan :: "string list \<Rightarrow> pydict \<Rightarrow> error + pydict" where
  "rescan [] query_params = Inr query_params"
| "rescan (param # rest) query_params =
     (case split_on CHR ''='' param of
        [] \<Rightarrow> Inl IndexError
      | [k] \<Rightarrow> rescan rest (dict_set k (Str []) query_params)
      | k # v # _ \<Rightarrow>
          if v = [] then rescan rest (dict_set k (Str []) query_params)
          else rescan rest query_params)"

text \<open>\<open>v[0] if isinstance(v, list) else v\<close>, and the dictionary comprehension over it.\<close>

fun first_value :: "pyval \<Rightarrow> error + pyval" where
  "first_value (Lst []) = Inl IndexError"
| "first_value (Lst (x # xs)) = Inr (Str x)"
| "first_value (Str s) = Inr (Str s)"

fun flatten :: "pydict \<Rightarrow> error + pydict" where
  "flatten [] = Inr []"
| "flatten ((k, v) # d) =
     (case first_value v of
        Inl e \<Rightarrow> Inl e
      | Inr v' \<Rightarrow> (case flatten d of Inl e \<Rightarrow> Inl e | Inr d' \<Rightarrow> Inr ((k, v') # d')))"

text \<open>The parameter map \<open>original_params\<close> that \<open>check_reflection\<close> builds from the query string.\<close>

definition original_params :: "string \<Rightarrow> error + pydict" where
  "original_params q =
     (case rescan (split_on CHR ''&'' q) (map (\<lambda>(k, vs). (k, Lst vs)) (parse_qs q)) of
        Inl e \<Rightarrow> Inl e
      | Inr query_params \<Rightarrow> flatten query_params)"

text \<open>
  The loop over \<open>original_params.keys()\<close>: the effects performed, and the exception that
  ended the loop, if any.
\<close>

fun save_all ::
    "string \<Rightarrow> string list \<Rightarrow> pydict \<Rightarrow> string \<Rightarrow> io \<Rightarrow> event list \<times> error option" where
  "save_all url [] original output_file io = ([], None)"
| "save_all url (param_name # names) original output_file io =
     (let modified_params = dict_set param_name (Str payload) original
      in case save_reflected_url url param_name modified_params output_file io of
           (evs, Some e) \<Rightarrow> (evs, Some e)
         | (evs, None) \<Rightarrow>
             (case save_all url names original output_file (after io evs) of
                (evs', r) \<Rightarrow> (evs @ evs', r)))"

text \<open>The body of the \<open>try\<close>.\<close>

definition try_block :: "string \<Rightarrow> string \<Rightarrow> io \<Rightarrow> event list \<times> error option" where
  "try_block url output_file io =
     (case urlparse url of
        Inl e \<Rightarrow> ([], Some e)
      | Inr parsed_url \<Rightarrow>
          (case original_params (query parsed_url) of
             Inl e \<Rightarrow> ([], Some e)
           | Inr original \<Rightarrow>
               (case save_all url (map fst original) original output_file io of
                  (evs, Some e) \<Rightarrow> (evs, Some e)
                | (evs, None) \<Rightarrow>
                    (case perform [Print (INFO url)] (after io evs) of
                       (evs', r) \<Rightarrow> (evs @ evs', r)))))"

text \<open>
  \<open>try\<close> / \<open>except Exception\<close> / \<open>finally\<close>: an exception of the body is handled by
  printing the error message; the count is done in every case, also when that \<open>print\<close>
  raises, and then its exception leaves the function.
\<close>

definition check_reflection :: "string \<Rightarrow> string \<Rightarrow> io \<Rightarrow> event list \<times> error option" where
  "check_reflection url output_file io =
     (case try_block url output_file io of
        (evs, None) \<Rightarrow> (evs @ [Count], None)
      | (evs, Some e) \<Rightarrow>
          (case perform [Print (ERROR url e)] (after io evs) of
             (evs', r) \<Rightarrow> (evs @ evs' @ [Count], r)))"

subsection \<open>process_urls\<close>

text \<open>The target of a thread. An exception that leaves \<open>check_reflection\<close> ends the thread.\<close>

fun worker :: "string \<Rightarrow> string list \<Rightarrow> io \<Rightarrow> event list \<times> error option" where
  "worker output_file [] io = ([], None)"
| "worker output_file (url # sublist) io =
     (case check_reflection url output_file io of
        (evs, Some e) \<Rightarrow> (evs, Some e)
      | (evs, None) \<Rightarrow>
          (case worker output_file sublist (after io evs) of
             (evs', r) \<Rightarrow> (evs @ evs', r)))"

text \<open>
  \<open>[urls[i:i + chunk_size] for i in range(0, len(urls), chunk_size)]\<close>, the arguments of
  the threads in the order they are started. \<open>process_urls\<close> calls it with a chunk size of
  at least 1; a step of 0, which \<open>range\<close> rejects, gives no slice here.
\<close>

function slices :: "'a list \<Rightarrow> nat \<Rightarrow> nat \<Rightarrow> 'a list list" where
  "slices urls chunk_size i =
     (if chunk_size = 0 \<or> length urls \<le> i then []
      else take chunk_size (drop i urls) # slices urls chunk_size (i + chunk_size))"
  by pat_completeness auto
termination
  by (relation "measure (\<lambda>(urls, chunk_size, i). length urls - i)") auto

declare slices.simps [simp del]

definition chunk_size_of :: "'a list \<Rightarrow> int \<Rightarrow> nat" where
  "chunk_size_of urls threads = nat (max 1 (int (length urls) div threads))"

text \<open>
  The threads run concurrently: what the process does is some interleaving of what the
  threads do, each thread keeping its own order, and \<open>join\<close> returns when every thread
  has ended.
\<close>

inductive interleaving :: "'a list list \<Rightarrow> 'a list \<Rightarrow> bool" where
  finished: "concat xss = [] \<Longrightarrow> interleaving xss []"
| step: "i < length xss \<Longrightarrow> xss ! i = x # xs \<Longrightarrow> interleaving (xss[i := xs]) es
         \<Longrightarrow> interleaving xss (x # es)"

text \<open>
  What the threads do, in the order they were started: thread \<open>t\<close> (from 1; the main
  thread is 0) runs in the environment \<open>env t\<close>.
\<close>

definition thread_effects :: "string \<Rightarrow> (nat \<Rightarrow> io) \<Rightarrow> string list list \<Rightarrow> event list list" where
  "thread_effects output_file env sublists =
     map (\<lambda>(t, sublist). fst (worker output_file sublist (env (Suc t))))
         (zip [0..<length sublists] sublists)"

text \<open>
  \<open>process_urls urls threads output_file env trace result\<close>: in the environment \<open>env\<close>
  the call can perform \<open>trace\<close> and end with \<open>result\<close>. A thread count of 0 raises
  ZeroDivisionError at the division; the closing \<open>print\<close> can raise as any other.
\<close>

inductive process_urls ::
    "string list \<Rightarrow> int \<Rightarrow> string \<Rightarrow> (nat \<Rightarrow> io) \<Rightarrow> event list \<Rightarrow> error + unit \<Rightarrow> bool" where
  raises: "threads = 0 \<Longrightarrow>
     process_urls urls threads output_file env
       [SetTotal (int (length urls))] (Inl ZeroDivisionError)"
| returns: "threads \<noteq> 0 \<Longrightarrow>
     interleaving (thread_effects output_file env
                     (slices urls (chunk_size_of urls threads) 0)) es \<Longrightarrow>
     env 0 [SetTotal (int (length urls))] Summary = None \<Longrightarrow>
     process_urls urls threads output_file env
       (SetTotal (int (length urls)) # es @ [Summary]) (Inr ())"
| print_raises: "threads \<noteq> 0 \<Longrightarrow>
     interleaving (thread_effects output_file env
                     (slices urls (chunk_size_of urls threads) 0)) es \<Longrightarrow>
     env 0 [SetTotal (int (length urls))] Summary = Some e \<Longrightarrow>
     process_urls urls threads output_file env
       (SetTotal (int (length urls)) # es) (Inl e)"

subsection \<open>Notions used in the statements\<close>

definition sound :: "pydict \<Rightarrow> bool" where
  "sound d = list_all (\<lambda>(k, v). v \<noteq> Lst []) d"

text \<open>
  The operations that the body of the \<open>try\<close> goes through for a URL parsed as \<open>p\<close> with
  the parameter map \<open>ps\<close>: for each name an append and a message, then the closing message.
\<close>

definition line_for :: "ParseResult \<Rightarrow> pydict \<Rightarrow> string \<Rightarrow> string" where
  "line_for p ps k =
     urlunparse (p\<lparr>query := join ''&'' (map format_param (dict_set k (Str payload) ps))\<rparr>)"

definition operations :: "string \<Rightarrow> string \<Rightarrow> ParseResult \<Rightarrow> pydict \<Rightarrow> event list" where
  "operations url output_file p ps =
     concat (map (\<lambda>k. [Write output_file (line_for p ps k @ newline),
                         Print (SAVED (line_for p ps k))]) (map fst ps))
     @ [Print (INFO url)]"

text \<open>
  Environments: one in which nothing raises, one in which every \<open>print\<close> raises, one in
  which every append raises, and one in which the file takes \<open>n\<close> lines from the thread
  and refuses the appends after them.
\<close>

definition no_errors :: io where
  "no_errors h ev = None"


definition file_down :: io where
  "file_down h ev = (case ev of Write p t \<Rightarrow> Some OSError | _ \<Rightarrow> None)"


section \<open>Properties\<close>

subsection \<open>Dictionaries and the parameter map\<close>

lemma split_on_not_Nil: "split_on c s \<noteq> []"
  by (induction s) (auto split: list.splits)

lemma dict_set_keys:
  "map fst (dict_set k v d) = (if k \<in> set (map fst d) then map fst d else map fst d @ [k])"
  by (induction d) force+

lemma dict_set_distinct: "distinct (map fst d) \<Longrightarrow> distinct (map fst (dict_set k v d))"
  by (simp add: dict_set_keys)

lemma dict_set_map_of: "map_of (dict_set k v d) = (map_of d)(k \<mapsto> v)"
  by (induction d) auto

lemma dict_set_idem: "dict_set k v (dict_set k v d) = dict_set k v d"
  by (induction d) auto

lemma dict_set_update:
  "distinct (map fst d) \<Longrightarrow> i < length d \<Longrightarrow> dict_set (fst (d ! i)) v d = d[i := (fst (d ! i), v)]"
proof (induction d arbitrary: i)
  case Nil
  then show ?case by simp
next
  case (Cons a d)
  show ?case
  proof (cases i)
    case 0
    then show ?thesis by (cases a) simp
  next
    case (Suc j)
    with Cons.prems have "fst (d ! j) \<in> set (map fst d)" by simp
    with Cons.prems have "fst a \<noteq> fst (d ! j)" by force
    with Cons Suc show ?thesis by (cases a) simp
  qed
qed

lemma rescan_total: "\<exists>d'. rescan segs d = Inr d'"
proof (induction segs arbitrary: d)
  case Nil
  then show ?case by simp
next
  case (Cons s segs)
  then show ?case
    using split_on_not_Nil [of "CHR ''=''" s]
    by (auto split: list.splits)
qed

lemma rescan_distinct:
  "rescan segs d = Inr d' \<Longrightarrow> distinct (map fst d) \<Longrightarrow> distinct (map fst d')"
proof (induction segs arbitrary: d)
  case Nil
  then show ?case by simp
next
  case (Cons s segs)
  then show ?case
    by (auto split: list.splits if_splits intro: dict_set_distinct)
qed

lemma dict_append_keys:
  "map fst (dict_append n v d) = (if n \<in> set (map fst d) then map fst d else map fst d @ [n])"
  by (induction d) force+

lemma dict_append_nonempty:
  "list_all (\<lambda>(k, vs). vs \<noteq> []) d \<Longrightarrow> list_all (\<lambda>(k, vs). vs \<noteq> []) (dict_append n v d)"
  by (induction d) auto

lemma parse_fold_inv:
  "distinct (map fst d) \<Longrightarrow> list_all (\<lambda>(k, vs). vs \<noteq> []) d \<Longrightarrow>
   distinct (map fst (foldl (\<lambda>r (n, v). dict_append n v r) d pairs))
   \<and> list_all (\<lambda>(k, vs). vs \<noteq> []) (foldl (\<lambda>r (n, v). dict_append n v r) d pairs)"
proof (induction pairs arbitrary: d)
  case Nil
  then show ?case by simp
next
  case (Cons a pairs)
  obtain n v where a: "a = (n, v)" by (cases a)
  have "distinct (map fst (dict_append n v d))"
    using Cons.prems(1) by (simp add: dict_append_keys)
  moreover have "list_all (\<lambda>(k, vs). vs \<noteq> []) (dict_append n v d)"
    using Cons.prems(2) by (rule dict_append_nonempty)
  ultimately show ?case
    using Cons.IH [of "dict_append n v d"] by (simp add: a)
qed

lemma parse_qs_inv:
  "distinct (map fst (parse_qs q)) \<and> list_all (\<lambda>(k, vs). vs \<noteq> []) (parse_qs q)"
  unfolding parse_qs_def using parse_fold_inv [of "[]"] by simp

lemma sound_dict_set: "sound d \<Longrightarrow> v \<noteq> Lst [] \<Longrightarrow> sound (dict_set k v d)"
  unfolding sound_def by (induction d) auto

lemma rescan_sound: "rescan segs d = Inr d' \<Longrightarrow> sound d \<Longrightarrow> sound d'"
proof (induction segs arbitrary: d)
  case Nil
  then show ?case by simp
next
  case (Cons s segs)
  then show ?case
    by (auto split: list.splits if_splits intro: sound_dict_set)
qed

lemma flatten_sound:
  "sound d \<Longrightarrow> \<exists>d'. flatten d = Inr d' \<and> map fst d' = map fst d
      \<and> list_all (\<lambda>(k, v). \<exists>s. v = Str s) d'"
proof (induction d)
  case Nil
  then show ?case by simp
next
  case (Cons a d)
  obtain k v where a: "a = (k, v)" by (cases a)
  from Cons.prems have "v \<noteq> Lst []" and "sound d"
    by (simp_all add: sound_def a)
  then obtain v' where "first_value v = Inr v'" and "\<exists>s. v' = Str s"
    by (cases v rule: first_value.cases) auto
  with Cons.IH [OF \<open>sound d\<close>] show ?case by (auto simp: a)
qed

lemma original_params_total:
  "\<exists>ps. original_params q = Inr ps \<and> distinct (map fst ps)
      \<and> list_all (\<lambda>(k, v). \<exists>s. v = Str s) ps"
proof -
  let ?d = "map (\<lambda>(k, vs). (k, Lst vs)) (parse_qs q)"
  have keys: "map fst ?d = map fst (parse_qs q)" by (simp add: case_prod_unfold comp_def)
  have d: "distinct (map fst ?d)" using parse_qs_inv [of q] unfolding keys by simp
  have s: "sound ?d"
    using parse_qs_inv [of q] by (auto simp: sound_def list_all_iff)
  obtain d' where r: "rescan (split_on CHR ''&'' q) ?d = Inr d'"
    using rescan_total by blast
  have "distinct (map fst d')" and "sound d'"
    using rescan_distinct [OF r d] rescan_sound [OF r s] by simp_all
  with flatten_sound [of d'] r show ?thesis
    by (auto simp: original_params_def)
qed

subsection \<open>Operations and the environment\<close>

lemma after_Nil: "after io [] = io"
  by (simp add: after_def)

lemma after_after: "after (after io a) b = after io (a @ b)"
  by (simp add: after_def)

lemma after_apply: "after io evs h ev = io (evs @ h) ev"
  by (simp add: after_def)

lemma perform_append:
  "perform (xs @ ys) io =
     (case perform xs io of
        (evs, Some e) \<Rightarrow> (evs, Some e)
      | (evs, None) \<Rightarrow> (case perform ys (after io evs) of (evs', r) \<Rightarrow> (evs @ evs', r)))"
proof (induction xs arbitrary: io)
  case Nil
  then show ?case by (simp add: after_Nil split: prod.splits)
next
  case (Cons x xs)
  show ?case
    by (simp add: Cons.IH after_after split: option.splits prod.splits)
qed

lemma perform_cases:
  "(perform ops io = (ops, None) \<and> (\<forall>j<length ops. io (take j ops) (ops ! j) = None))
   \<or> (\<exists>j e. j < length ops \<and> (\<forall>i<j. io (take i ops) (ops ! i) = None)
          \<and> io (take j ops) (ops ! j) = Some e \<and> perform ops io = (take j ops, Some e))"
proof (induction ops arbitrary: io)
  case Nil
  then show ?case by simp
next
  case (Cons ev ops)
  show ?case
  proof (cases "io [] ev")
    case (Some e)
    then have "0 < length (ev # ops) \<and> (\<forall>i<0. io (take i (ev # ops)) ((ev # ops) ! i) = None)
        \<and> io (take 0 (ev # ops)) ((ev # ops) ! 0) = Some e
        \<and> perform (ev # ops) io = (take 0 (ev # ops), Some e)"
      by simp
    then show ?thesis by blast
  next
    case None
    from Cons.IH [of "after io [ev]"] show ?thesis
    proof
      assume a: "perform ops (after io [ev]) = (ops, None)
          \<and> (\<forall>j<length ops. after io [ev] (take j ops) (ops ! j) = None)"
      have "io (take j (ev # ops)) ((ev # ops) ! j) = None" if "j < length (ev # ops)" for j
        using that a None by (cases j) (simp_all add: after_apply)
      with a None show ?thesis by simp
    next
      assume "\<exists>j e. j < length ops \<and> (\<forall>i<j. after io [ev] (take i ops) (ops ! i) = None)
          \<and> after io [ev] (take j ops) (ops ! j) = Some e
          \<and> perform ops (after io [ev]) = (take j ops, Some e)"
      then obtain j e where j: "j < length ops"
        and b: "\<forall>i<j. after io [ev] (take i ops) (ops ! i) = None"
        and c: "after io [ev] (take j ops) (ops ! j) = Some e"
        and d: "perform ops (after io [ev]) = (take j ops, Some e)"
        by blast
      have "io (take i (ev # ops)) ((ev # ops) ! i) = None" if "i < Suc j" for i
        using that b None by (cases i) (simp_all add: after_apply)
      moreover have "io (take (Suc j) (ev # ops)) ((ev # ops) ! Suc j) = Some e"
        using c by (simp add: after_apply)
      moreover have "perform (ev # ops) io = (take (Suc j) (ev # ops), Some e)"
        using d None by simp
      moreover have "Suc j < length (ev # ops)" using j by simp
      ultimately show ?thesis by blast
    qed
  qed
qed

lemma perform_ok:
  assumes "\<And>j. j < length ops \<Longrightarrow> io (take j ops) (ops ! j) = None"
  shows "perform ops io = (ops, None)"
  using perform_cases [of ops io] assms by (metis not_less_iff_gr_or_eq option.distinct(1))


lemma perform_prefix:
  "\<exists>n\<le>length ops. fst (perform ops io) = take n ops"
  using perform_cases [of ops io] by (metis fst_conv less_imp_le_nat order_refl take_all)

lemma perform_no_errors: "perform ops (\<lambda>h ev. None) = (ops, None)"
  by (rule perform_ok) simp

subsection \<open>The body of the try\<close>

lemma save_reflected_url_parsed:
  "urlparse url = Inr p \<Longrightarrow>
   save_reflected_url url k (dict_set k (Str payload) ps) f io =
     perform [Write f (line_for p ps k @ newline), Print (SAVED (line_for p ps k))] io"
  by (simp add: save_reflected_url_def line_for_def dict_set_idem Let_def del: perform.simps)

lemma save_all_parsed:
  "urlparse url = Inr p \<Longrightarrow>
   save_all url names ps f io =
     perform (concat (map (\<lambda>k. [Write f (line_for p ps k @ newline),
                                   Print (SAVED (line_for p ps k))]) names)) io"
proof (induction names arbitrary: io)
  case Nil
  then show ?case by simp
next
  case (Cons k names)
  have "concat (map (\<lambda>k. [Write f (line_for p ps k @ newline), Print (SAVED (line_for p ps k))])
          (k # names))
      = [Write f (line_for p ps k @ newline), Print (SAVED (line_for p ps k))]
        @ concat (map (\<lambda>k. [Write f (line_for p ps k @ newline),
                               Print (SAVED (line_for p ps k))]) names)"
    by simp
  then show ?case
    using Cons
    by (simp only: perform_append save_all.simps Let_def save_reflected_url_parsed)
qed

lemma try_block_parsed:
  assumes "urlparse url = Inr p" and "original_params (query p) = Inr ps"
  shows "try_block url f io = perform (operations url f p ps) io"
  using assms
  by (simp add: try_block_def operations_def save_all_parsed perform_append
           split: prod.splits option.splits del: perform.simps)


lemma no_errors_after: "after no_errors evs = no_errors"
  by (rule ext)+ (simp add: after_def no_errors_def)

lemma perform_quiet: "perform ops no_errors = (ops, None)"
  by (rule perform_ok) (simp add: no_errors_def)

subsection \<open>check_reflection\<close>



lemma operations_no_error: "Print (ERROR u e) \<notin> set (operations url f p ps)"
  by (auto simp: operations_def)



lemma check_reflection_shape:
  "\<exists>evs tl r. check_reflection url f io = (evs @ tl @ [Count], r)
      \<and> fst (try_block url f io) = evs
      \<and> (tl = [] \<or> (\<exists>e. tl = [Print (ERROR url e)]))"
  by (cases "try_block url f io")
     (auto simp: check_reflection_def split: option.splits prod.splits)





lemma check_reflection_accepted:
  assumes "urlparse url = Inr p" and "original_params (query p) = Inr ps"
    and "\<And>j. j < length (operations url f p ps) \<Longrightarrow>
           io (take j (operations url f p ps)) (operations url f p ps ! j) = None"
  shows "check_reflection url f io = (operations url f p ps @ [Count], None)"
proof -
  have "try_block url f io = (operations url f p ps, None)"
    using try_block_parsed [OF assms(1,2)] perform_ok [of "operations url f p ps" io] assms(3)
    by simp
  then show ?thesis by (simp add: check_reflection_def)
qed


subsection \<open>worker\<close>


subsection \<open>The lines written\<close>

lemma written_append: "written f (xs @ ys) = written f xs @ written f ys"
  by (induction xs rule: written.induct) simp_all

lemma written_take_pairs:
  "\<exists>n\<le>length ks.
     written f (take j (concat (map (\<lambda>k. [Write f (g k), Print (h k)]) ks) @ [Print x]))
       = map g (take n ks)"
proof (induction ks arbitrary: j)
  case Nil
  show ?case by (cases j) simp_all
next
  case (Cons k ks)
  show ?case
  proof (cases j)
    case 0
    then show ?thesis by simp
  next
    case (Suc j1)
    show ?thesis
    proof (cases j1)
      case 0
      have "Suc 0 \<le> length (k # ks)
          \<and> written f (take j (concat (map (\<lambda>k. [Write f (g k), Print (h k)]) (k # ks))
                                  @ [Print x]))
              = map g (take (Suc 0) (k # ks))"
        using Suc 0 by simp
      then show ?thesis by blast
    next
      case (Suc j2)
      obtain n where n: "n \<le> length ks"
        and w: "written f (take j2 (concat (map (\<lambda>k. [Write f (g k), Print (h k)]) ks)
                                    @ [Print x])) = map g (take n ks)"
        using Cons.IH [of j2] by blast
      have "Suc n \<le> length (k # ks)
          \<and> written f (take j (concat (map (\<lambda>k. [Write f (g k), Print (h k)]) (k # ks))
                                  @ [Print x]))
              = map g (take (Suc n) (k # ks))"
        using \<open>j = Suc j1\<close> Suc n w by simp
      then show ?thesis by blast
    qed
  qed
qed

lemma written_pairs:
  "written f (concat (map (\<lambda>k. [Write f (g k), Print (h k)]) ks) @ evs)
     = map g ks @ written f evs"
  by (induction ks) simp_all

lemma written_operations:
  "written f (operations url f p ps) = map (\<lambda>k. line_for p ps k @ newline) (map fst ps)"
  unfolding operations_def by (simp add: written_pairs del: map_map)

lemma written_check_reflection:
  "written f (fst (check_reflection url f io)) = written f (fst (try_block url f io))"
  using check_reflection_shape [of url f io] by (auto simp: written_append)

lemma all_str:
  "list_all (\<lambda>(k, v). \<exists>s. v = Str s) ps \<Longrightarrow> \<exists>kvs. ps = map (\<lambda>(k, v). (k, Str v)) kvs"
proof (induction ps)
  case Nil
  then show ?case by simp
next
  case (Cons a ps)
  then obtain kvs where kvs: "ps = map (\<lambda>(k, v). (k, Str v)) kvs" by auto
  from Cons.prems obtain k s where "a = (k, Str s)" by (cases a) auto
  then have "a # ps = map (\<lambda>(k, v). (k, Str v)) ((k, s) # kvs)" by (simp add: kvs)
  then show ?case by (rule exI [of _ "(k, s) # kvs"])
qed

lemma line_for_segments:
  assumes "distinct (map fst kvs)" and "i < length kvs"
  shows "line_for p (map (\<lambda>(k, v). (k, Str v)) kvs) (fst (kvs ! i)) =
     urlunparse (p\<lparr>query := join ''&'' (map (\<lambda>(k, v). k @ ''='' @ v)
                                            (kvs[i := (fst (kvs ! i), payload)]))\<rparr>)"
proof -
  let ?ps = "map (\<lambda>(k, v). (k, Str v)) kvs"
  have keys: "map fst ?ps = map fst kvs" by (simp add: case_prod_unfold comp_def)
  have k: "fst (?ps ! i) = fst (kvs ! i)" using assms(2) by (simp add: case_prod_unfold)
  have "dict_set (fst (?ps ! i)) (Str payload) ?ps = ?ps[i := (fst (?ps ! i), Str payload)]"
    using assms by (intro dict_set_update) (simp_all only: keys length_map)
  also have "\<dots> = map (\<lambda>(k, v). (k, Str v)) (kvs[i := (fst (kvs ! i), payload)])"
    by (simp add: k map_update)
  finally have "dict_set (fst (kvs ! i)) (Str payload) ?ps
      = map (\<lambda>(k, v). (k, Str v)) (kvs[i := (fst (kvs ! i), payload)])"
    by (simp only: k)
  moreover have "map format_param (map (\<lambda>(k, v). (k, Str v)) xs)
      = map (\<lambda>(k, v). k @ ''='' @ v) xs" for xs :: "(string \<times> string) list"
    by (simp add: case_prod_unfold comp_def)
  ultimately show ?thesis by (simp only: line_for_def)
qed

subsection \<open>Failures stay inside the per-URL operation\<close>




subsection \<open>All lines of a URL carry the same names in the same order\<close>

text \<open>
  Claim C10. For a URL that parses, the parameter map is built once: names with their
  values, no name twice. Whatever the environment does, the lines written for the URL are
  the first \<open>n\<close> of one line per entry of the map, in the order of the map. The i-th line
  is the URL with its query string rebuilt from the whole map, one \<open>name=value\<close> per
  entry joined by \<open>&\<close>, after only the value of the i-th entry was changed to \<open>{payload}\<close>:
  every line has the names of the map in the order of the map, and the targeted parameter
  stays at its place. When nothing raises, there is a line for every entry.
\<close>

theorem same_names_same_order:
  assumes "urlparse url = Inr p"
  shows "\<exists>kvs n. original_params (query p) = Inr (map (\<lambda>(k, v). (k, Str v)) kvs)
     \<and> distinct (map fst kvs) \<and> n \<le> length kvs
     \<and> written f (fst (check_reflection url f io)) =
         map (\<lambda>i. urlunparse
                     (p\<lparr>query := join ''&'' (map (\<lambda>(k, v). k @ ''='' @ v)
                                                  (kvs[i := (fst (kvs ! i), payload)]))\<rparr>)
                   @ newline) [0..<n]
     \<and> ((\<forall>h ev. io h ev = None) \<longrightarrow> n = length kvs)"
proof -
  obtain ps where ps: "original_params (query p) = Inr ps" and d: "distinct (map fst ps)"
    and s: "list_all (\<lambda>(k, v). \<exists>s. v = Str s) ps"
    using original_params_total by blast
  obtain kvs where kvs: "ps = map (\<lambda>(k, v). (k, Str v)) kvs"
    using all_str [OF s] by blast
  have keys: "map fst ps = map fst kvs" by (simp add: kvs case_prod_unfold comp_def)
  have dk: "distinct (map fst kvs)" using d keys by simp
  let ?line = "\<lambda>i. urlunparse
                     (p\<lparr>query := join ''&'' (map (\<lambda>(k, v). k @ ''='' @ v)
                                                  (kvs[i := (fst (kvs ! i), payload)]))\<rparr>)
                   @ newline"
  have lines: "map (\<lambda>k. line_for p ps k @ newline) (take n (map fst ps)) = map ?line [0..<n]"
    if "n \<le> length kvs" for n
  proof (rule nth_equalityI)
    show "length (map (\<lambda>k. line_for p ps k @ newline) (take n (map fst ps)))
        = length (map ?line [0..<n])"
      using that by (simp add: keys)
  next
    fix i
    assume "i < length (map (\<lambda>k. line_for p ps k @ newline) (take n (map fst ps)))"
    then have i: "i < n" by simp
    then have "i < length kvs" using that by simp
    then have "line_for p ps (fst (kvs ! i)) @ newline = ?line i"
      using line_for_segments [OF dk, of i p] by (simp only: kvs)
    moreover have "take n (map fst ps) ! i = fst (kvs ! i)"
      using i that by (simp add: keys)
    ultimately show "map (\<lambda>k. line_for p ps k @ newline) (take n (map fst ps)) ! i
        = map ?line [0..<n] ! i"
      using i that by (simp add: keys)
  qed
  have t: "try_block url f io = perform (operations url f p ps) io"
    using try_block_parsed [OF assms ps] .
  have w: "written f (fst (check_reflection url f io))
      = written f (fst (perform (operations url f p ps) io))"
    by (simp add: written_check_reflection t)
  show ?thesis
  proof (cases "\<forall>h ev. io h ev = None")
    case True
    then have "perform (operations url f p ps) io = (operations url f p ps, None)"
      by (intro perform_ok) simp
    then have "written f (fst (check_reflection url f io))
        = map (\<lambda>k. line_for p ps k @ newline) (take (length kvs) (map fst ps))"
      by (simp add: w written_operations keys del: map_map)
    then have "written f (fst (check_reflection url f io)) = map ?line [0..<length kvs]"
      using lines [of "length kvs"] by simp
    with ps dk show ?thesis unfolding kvs by blast
  next
    case False
    obtain j where "fst (perform (operations url f p ps) io) = take j (operations url f p ps)"
      using perform_prefix by blast
    moreover obtain n where n: "n \<le> length (map fst ps)"
      and "written f (take j (operations url f p ps))
          = map (\<lambda>k. line_for p ps k @ newline) (take n (map fst ps))"
      unfolding operations_def
      using written_take_pairs [of "map fst ps" f j "\<lambda>k. line_for p ps k @ newline"
                                   "\<lambda>k. SAVED (line_for p ps k)" "INFO url"]
      by blast
    ultimately have "written f (fst (check_reflection url f io))
        = map (\<lambda>k. line_for p ps k @ newline) (take n (map fst ps))"
      by (simp add: w)
    moreover have n': "n \<le> length kvs" using n by (simp add: keys)
    ultimately have "written f (fst (check_reflection url f io)) = map ?line [0..<n]"
      using lines [of n] by simp
    with ps dk n' False show ?thesis unfolding kvs by blast
  qed
qed

text \<open>
  The hypotheses hold at the URL of the example of the specification, when nothing
  raises: the two lines are written.
\<close>

theorem same_names_same_order_witness:
  "urlparse ''http://example.com/page?a=1&b=2'' =
     Inr \<lparr>scheme = ''http'', netloc = ''example.com'', path = ''/page'',
          query = ''a=1&b=2'', fragment = [], params = []\<rparr>
   \<and> (\<exists>kvs. original_params ''a=1&b=2'' = Inr (map (\<lambda>(k, v). (k, Str v)) kvs)
         \<and> distinct (map fst kvs)
         \<and> written ''out.txt''
              (fst (check_reflection ''http://example.com/page?a=1&b=2'' ''out.txt'' no_errors)) =
             map (\<lambda>i. urlunparse
                         (\<lparr>scheme = ''http'', netloc = ''example.com'', path = ''/page'',
                           query = join ''&'' (map (\<lambda>(k, v). k @ ''='' @ v)
                                                  (kvs[i := (fst (kvs ! i), payload)])),
                           fragment = [], params = []\<rparr>)
                       @ newline) [0..<length kvs])
   \<and> written ''out.txt''
        (fst (check_reflection ''http://example.com/page?a=1&b=2'' ''out.txt'' no_errors)) =
       [''http://example.com/page?a={payload}&b=2'' @ newline,
        ''http://example.com/page?a=1&b={payload}'' @ newline]"
proof -
  let ?p = "\<lparr>scheme = ''http'', netloc = ''example.com'', path = ''/page'',
             query = ''a=1&b=2'', fragment = [], params = []\<rparr>"
  have h: "urlparse ''http://example.com/page?a=1&b=2'' = Inr ?p"
    by code_simp
  have q: "\<forall>h ev. no_errors h ev = None"
    by (simp add: no_errors_def)
  have l: "written ''out.txt''
        (fst (check_reflection ''http://example.com/page?a=1&b=2'' ''out.txt'' no_errors)) =
       [''http://example.com/page?a={payload}&b=2'' @ newline,
        ''http://example.com/page?a=1&b={payload}'' @ newline]"
    by code_simp
  obtain kvs n where "original_params (query ?p) = Inr (map (\<lambda>(k, v). (k, Str v)) kvs)"
    and "distinct (map fst kvs)"
    and "written ''out.txt''
           (fst (check_reflection ''http://example.com/page?a=1&b=2'' ''out.txt'' no_errors)) =
         map (\<lambda>i. urlunparse
                     (?p\<lparr>query := join ''&'' (map (\<lambda>(k, v). k @ ''='' @ v)
                                                   (kvs[i := (fst (kvs ! i), payload)]))\<rparr>)
                   @ newline) [0..<n]"
    and "(\<forall>h ev. no_errors h ev = None) \<longrightarrow> n = length kvs"
    using same_names_same_order [OF h, of "''out.txt''" no_errors] by blast
  with q have "\<exists>kvs. original_params ''a=1&b=2'' = Inr (map (\<lambda>(k, v). (k, Str v)) kvs)
         \<and> distinct (map fst kvs)
         \<and> written ''out.txt''
              (fst (check_reflection ''http://example.com/page?a=1&b=2'' ''out.txt'' no_errors)) =
             map (\<lambda>i. urlunparse
                         (\<lparr>scheme = ''http'', netloc = ''example.com'', path = ''/page'',
                           query = join ''&'' (map (\<lambda>(k, v). k @ ''='' @ v)
                                                  (kvs[i := (fst (kvs ! i), payload)])),
                           fragment = [], params = []\<rparr>)
                       @ newline) [0..<length kvs]"
    by auto
  with h l show ?thesis by (simp only: simp_thms)
qed

subsection \<open>A URL without a query string\<close>

text \<open>
  Claim C4. For a URL with an empty query string the re-scan finds the one empty segment
  of the split and enters the empty name into the parameter map, so that one line is
  written, with the query string \<open>={payload}\<close>; the URL is counted as processed. Here in
  the environment in which nothing raises.
\<close>

theorem no_query_writes_a_line:
  "check_reflection ''http://example.com/page'' ''output_reflection.txt'' no_errors =
     ([Write ''output_reflection.txt'' (''http://example.com/page?={payload}'' @ newline),
       Print (SAVED ''http://example.com/page?={payload}''),
       Print (INFO ''http://example.com/page''), Count], None)"
  by code_simp

end
